theory Spec2Isabelle
  imports Complex_Main "HOL-Library.Sublist"
begin

section \<open>Python strings and the string primitives the pipeline uses\<close>

text \<open>
  A Python \<^verbatim>\<open>str\<close> is a sequence of Unicode code points and \<^verbatim>\<open>len\<close> counts code
  points, so a string is modelled as a list of code points (natural numbers). Literals of
  the source are ASCII and are written through \<open>ascii\<close>.
\<close>

type_synonym ustr = "nat list"

definition ascii :: "string \<Rightarrow> ustr" where
  "ascii s = map of_char s"

text \<open>
  The characters matched by \<^verbatim>\<open>\s\<close> in a \<^verbatim>\<open>str\<close> pattern and removed by
  \<^verbatim>\<open>str.strip()\<close>: CPython's table of Unicode whitespace.
\<close>

definition is_space :: "nat \<Rightarrow> bool" where
  "is_space c =
     ((9 \<le> c \<and> c \<le> 13) \<or> (28 \<le> c \<and> c \<le> 32) \<or> c = 133 \<or> c = 160 \<or> c = 5760
      \<or> (8192 \<le> c \<and> c \<le> 8202) \<or> c = 8232 \<or> c = 8233 \<or> c = 8239 \<or> c = 8287
      \<or> c = 12288)"

text \<open>\<^verbatim>\<open>s.strip()\<close>: leading and trailing whitespace removed.\<close>

definition py_strip :: "ustr \<Rightarrow> ustr" where
  "py_strip s = rev (dropWhile is_space (rev (dropWhile is_space s)))"

text \<open>
  \<^verbatim>\<open>s[a:b]\<close> with Python's rules: a negative index counts from the end, every index is
  clamped to \<open>0..len(s)\<close>, and an empty range gives the empty string.
\<close>

definition slice_index :: "nat \<Rightarrow> int \<Rightarrow> nat" where
  "slice_index n i = (if i < 0 then nat (max 0 (i + int n)) else min (nat i) n)"

definition py_slice :: "'a list \<Rightarrow> int \<Rightarrow> int \<Rightarrow> 'a list" where
  "py_slice s a b =
     (let lo = slice_index (length s) a; hi = slice_index (length s) b
      in take (hi - lo) (drop lo s))"

text \<open>
  \<^verbatim>\<open>s.rfind(p)\<close> for a non-empty pattern: the highest index at which \<open>p\<close> occurs in
  \<open>s\<close>, or \<open>-1\<close>.
\<close>

primrec rfind_from :: "ustr \<Rightarrow> ustr \<Rightarrow> nat \<Rightarrow> int" where
  "rfind_from s p 0 = (if take (length p) s = p then 0 else - 1)"
| "rfind_from s p (Suc i) =
     (if take (length p) (drop (Suc i) s) = p then int (Suc i) else rfind_from s p i)"

definition py_rfind :: "ustr \<Rightarrow> ustr \<Rightarrow> int" where
  "py_rfind s p = (if length p \<le> length s then rfind_from s p (length s - length p) else - 1)"

text \<open>\<^verbatim>\<open>p in s\<close> for strings.\<close>

definition str_in :: "ustr \<Rightarrow> ustr \<Rightarrow> bool" where
  "str_in p s = (0 \<le> py_rfind s p)"

text \<open>
  \<^verbatim>\<open>re.sub(r'C+', r, s)\<close> for a character class \<open>C\<close>: every maximal run of characters
  of the class is replaced by the one character \<open>r\<close>.
\<close>

function sub_runs :: "(nat \<Rightarrow> bool) \<Rightarrow> nat \<Rightarrow> ustr \<Rightarrow> ustr" where
  "sub_runs C r [] = []"
| "sub_runs C r (c # cs) =
     (if C c then r # sub_runs C r (dropWhile C cs) else c # sub_runs C r cs)"
  by pat_completeness auto
termination
  by (relation "measure (\<lambda>(C, r, s). length s)")
     (auto simp: le_imp_less_Suc length_dropWhile_le)

section \<open>services/pdf\_processor.py\<close>

text \<open>
  \<^verbatim>\<open>clean_text\<close>: runs of newlines become one newline, runs of whitespace (\<^verbatim>\<open>\s+\<close>,
  which matches the newline too) become one space, every character outside
  \<^verbatim>\<open>[\x20-\x7E\n]\<close> is deleted, and the result is stripped.
\<close>

definition clean_text :: "ustr \<Rightarrow> ustr" where
  "clean_text text =
     (let text1 = sub_runs (\<lambda>c. c = 10) 10 text;
          text2 = sub_runs is_space 32 text1;
          text3 = filter (\<lambda>c. (32 \<le> c \<and> c \<le> 126) \<or> c = 10) text2
      in py_strip text3)"

section \<open>config.py\<close>

datatype exn =
    BackendError ustr  \<comment> \<open>any exception raised by an external library; carries \<^verbatim>\<open>str(e)\<close>\<close>
  | ValueError ustr
  | RetryError exn  \<comment> \<open>tenacity's error after the last attempt; wraps that attempt's exception\<close>

record settings =
  GOOGLE_API_KEY :: ustr
  PINECONE_API_KEY :: ustr
  PINECONE_ENVIRONMENT :: ustr
  PINECONE_INDEX_NAME :: ustr
  CHUNK_SIZE :: int
  CHUNK_OVERLAP :: int
  TOP_K_RESULTS :: int

text \<open>\<^verbatim>\<open>', '.join(xs)\<close>.\<close>

fun join_comma :: "ustr list \<Rightarrow> ustr" where
  "join_comma [] = []"
| "join_comma [x] = x"
| "join_comma (x # y # ys) = x @ ascii '', '' @ join_comma (y # ys)"

text \<open>
  \<^verbatim>\<open>Settings.validate_settings\<close> checks the three credentials only; the chunking
  parameters are not looked at.
\<close>

definition validate_settings :: "settings \<Rightarrow> exn + unit" where
  "validate_settings s =
     (let missing_keys =
            (if GOOGLE_API_KEY s = [] then [ascii ''GOOGLE_API_KEY''] else [])
          @ (if PINECONE_API_KEY s = [] then [ascii ''PINECONE_API_KEY''] else [])
          @ (if PINECONE_ENVIRONMENT s = [] then [ascii ''PINECONE_ENVIRONMENT''] else [])
      in if missing_keys \<noteq> []
         then Inl (ValueError (ascii ''Missing required environment variables: ''
                                @ join_comma missing_keys))
         else Inr ())"

section \<open>services/pdf\_processor.py: chunk\_text\<close>

text \<open>
  The dictionary \<^verbatim>\<open>{"text", "page_number", "source", "chunk_id"}\<close> of a chunk; the fields
  carry the prefix \<open>c_\<close>.
\<close>

record chunk =
  c_text :: ustr
  c_page_number :: int
  c_source :: ustr
  c_chunk_id :: ustr

text \<open>
  \<^verbatim>\<open>x or d\<close> for an optional integer argument: \<^verbatim>\<open>None\<close> and \<open>0\<close> are both falsy, so
  an explicit \<open>0\<close> is replaced by the default as well.
\<close>

definition py_or :: "int option \<Rightarrow> int \<Rightarrow> int" where
  "py_or x d = (case x of None \<Rightarrow> d | Some v \<Rightarrow> if v = 0 then d else v)"

text \<open>
  One iteration of the loop of \<^verbatim>\<open>chunk_text\<close> up to the append: the window's end and
  the text cut out, after the search for a break. The source compares a break's offset
  with the float \<^verbatim>\<open>chunk_size * 0.5\<close>; Python compares an integer with a float by value,
  and the product is exact for every \<open>chunk_size\<close> below \<open>2^53\<close>, so the test is
  \<open>2 * break > chunk_size\<close>.
\<close>

definition next_window :: "ustr \<Rightarrow> int \<Rightarrow> int \<Rightarrow> int \<times> ustr" where
  "next_window txt chunk_size start =
     (let end0 = start + chunk_size;
          chunk0 = py_slice txt start end0
      in if end0 < int (length txt) then
           (let paragraph_break = py_rfind chunk0 [10];
                sentence_break = py_rfind chunk0 [46, 32]
            in if 2 * paragraph_break > chunk_size then
                 (start + paragraph_break + 1, py_slice txt start (start + paragraph_break + 1))
               else if 2 * sentence_break > chunk_size then
                 (start + sentence_break + 2, py_slice txt start (start + sentence_break + 2))
               else (end0, chunk0))
         else (end0, chunk0))"

text \<open>
  The \<^verbatim>\<open>while start < len(text)\<close> loop. It may run forever, so it is a partial function:
  \<open>None\<close> is "does not return". \<open>ids i\<close> is the \<open>i\<close>-th value drawn from
  \<^verbatim>\<open>uuid.uuid4()\<close> in this call. Beside the list of chunks the model keeps the list of
  windows \<open>(start, end)\<close> the chunks were cut from; the source does not store them, they
  are there to state where the chunks lie in the text.
\<close>

partial_function (option) chunk_loop ::
  "ustr \<Rightarrow> int \<Rightarrow> ustr \<Rightarrow> int \<Rightarrow> int \<Rightarrow> (nat \<Rightarrow> ustr) \<Rightarrow> int \<Rightarrow> chunk list \<Rightarrow> (int \<times> int) list
     \<Rightarrow> (chunk list \<times> (int \<times> int) list) option" where
  "chunk_loop txt pn src chunk_size chunk_overlap ids start chunks spans =
     (if start < int (length txt) then
        chunk_loop txt pn src chunk_size chunk_overlap ids
          (fst (next_window txt chunk_size start) - chunk_overlap)
          (chunks @ [\<lparr>c_text = py_strip (snd (next_window txt chunk_size start)),
                      c_page_number = pn, c_source = src, c_chunk_id = ids (length chunks)\<rparr>])
          (spans @ [(start, fst (next_window txt chunk_size start))])
      else Some (chunks, spans))"

definition chunk_text_spans ::
  "settings \<Rightarrow> (nat \<Rightarrow> ustr) \<Rightarrow> ustr \<Rightarrow> int \<Rightarrow> ustr \<Rightarrow> int option \<Rightarrow> int option
     \<Rightarrow> (chunk list \<times> (int \<times> int) list) option" where
  "chunk_text_spans cfg ids txt pn src chunk_size chunk_overlap =
     (let chunk_size' = py_or chunk_size (CHUNK_SIZE cfg);
          chunk_overlap' = py_or chunk_overlap (CHUNK_OVERLAP cfg);
          txt' = clean_text txt
      in if int (length txt') \<le> chunk_size' then
           Some ([\<lparr>c_text = txt', c_page_number = pn, c_source = src, c_chunk_id = ids 0\<rparr>],
                 [(0, int (length txt'))])
         else chunk_loop txt' pn src chunk_size' chunk_overlap' ids 0 [] [])"

text \<open>\<^verbatim>\<open>chunk_text\<close> itself returns the chunks only.\<close>

definition chunk_text ::
  "settings \<Rightarrow> (nat \<Rightarrow> ustr) \<Rightarrow> ustr \<Rightarrow> int \<Rightarrow> ustr \<Rightarrow> int option \<Rightarrow> int option
     \<Rightarrow> chunk list option" where
  "chunk_text cfg ids txt pn src chunk_size chunk_overlap =
     map_option fst (chunk_text_spans cfg ids txt pn src chunk_size chunk_overlap)"

section \<open>The external services and the retry decorator\<close>

text \<open>
  An embedding is a list of floats; the pipeline never computes with the components, so a
  component is a real number here.
\<close>

type_synonym vec = "real list"

definition zero768 :: vec where
  "zero768 = replicate 768 0"


text \<open>An entry sent to \<^verbatim>\<open>index.upsert\<close>: \<^verbatim>\<open>{"id", "values", "metadata"}\<close>.\<close>

record vector_entry =
  v_id :: ustr
  v_values :: vec
  v_metadata :: chunk

text \<open>
  A match in the response of \<^verbatim>\<open>index.query\<close>; the source reads every key with
  \<^verbatim>\<open>.get\<close>, so every key may be absent.
\<close>

record match_metadata =
  md_text :: "ustr option"
  md_source :: "ustr option"
  md_page_number :: "int option"
  md_chunk_id :: "ustr option"

record pinecone_match =
  m_metadata :: "match_metadata option"
  m_score :: "real option"

text \<open>
  The external services (Google Gemini, Pinecone), as the code sees them: a call takes the
  services' state \<open>'s\<close>, returns a value or raises, and leaves a new state. \<open>Inl m\<close> is an
  exception \<open>e\<close> with \<^verbatim>\<open>str(e) = m\<close>. Any behaviour of the services is an instance.
\<close>

record 's remote =
  embed_content :: "ustr \<Rightarrow> 's \<Rightarrow> (ustr + vec) \<times> 's"
  generate_content :: "ustr \<Rightarrow> 's \<Rightarrow> (ustr + ustr) \<times> 's"
  list_indexes :: "'s \<Rightarrow> (ustr + ustr list) \<times> 's"
  create_index :: "ustr \<Rightarrow> 's \<Rightarrow> (ustr + unit) \<times> 's"
  index_upsert :: "vector_entry list \<Rightarrow> ustr \<Rightarrow> 's \<Rightarrow> (ustr + int option) \<times> 's"
  index_query :: "vec \<Rightarrow> int \<Rightarrow> ustr \<Rightarrow> 's \<Rightarrow> (ustr + pinecone_match list option) \<times> 's"

text \<open>
  The state of the program: the services' state, the module global \<^verbatim>\<open>_index\<close> of
  \<^verbatim>\<open>pinecone_service\<close> (\<open>index_handle\<close> says that it is set) and, for every service that a
  claim counts calls of, the list of the calls made so far.
\<close>

record 's world =
  ext :: 's
  index_handle :: bool
  embed_log :: "ustr list"
  generate_log :: "ustr list"
  upsert_log :: "(vector_entry list \<times> ustr) list"
  query_log :: "(vec \<times> int \<times> ustr) list"

definition call_embed :: "'s remote \<Rightarrow> ustr \<Rightarrow> 's world \<Rightarrow> (ustr + vec) \<times> 's world" where
  "call_embed R t w =
     (case embed_content R t (ext w) of
        (r, s') \<Rightarrow> (r, w\<lparr>ext := s', embed_log := embed_log w @ [t]\<rparr>))"

definition call_generate :: "'s remote \<Rightarrow> ustr \<Rightarrow> 's world \<Rightarrow> (ustr + ustr) \<times> 's world" where
  "call_generate R prompt w =
     (case generate_content R prompt (ext w) of
        (r, s') \<Rightarrow> (r, w\<lparr>ext := s', generate_log := generate_log w @ [prompt]\<rparr>))"


definition call_query ::
  "'s remote \<Rightarrow> vec \<Rightarrow> int \<Rightarrow> ustr \<Rightarrow> 's world \<Rightarrow> (ustr + pinecone_match list option) \<times> 's world" where
  "call_query R v k ns w =
     (case index_query R v k ns (ext w) of
        (r, s') \<Rightarrow> (r, w\<lparr>ext := s', query_log := query_log w @ [(v, k, ns)]\<rparr>))"

text \<open>
  \<^verbatim>\<open>@retry(stop=stop_after_attempt(n), wait=wait_exponential(...))\<close> of tenacity: after
  every exception, whatever its class, the decorated body is called again, until a call
  returns or the \<open>n\<close>-th call has failed; then \<^verbatim>\<open>RetryError\<close> is raised, holding the last
  exception. The sleeps between the attempts are not part of the model.
\<close>

primrec retry_more :: "nat \<Rightarrow> ('w \<Rightarrow> (exn + 'a) \<times> 'w) \<Rightarrow> exn \<Rightarrow> 'w \<Rightarrow> (exn + 'a) \<times> 'w" where
  "retry_more 0 f e w = (Inl (RetryError e), w)"
| "retry_more (Suc n) f e w =
     (case f w of (Inr v, w') \<Rightarrow> (Inr v, w') | (Inl e', w') \<Rightarrow> retry_more n f e' w')"

definition retry :: "nat \<Rightarrow> ('w \<Rightarrow> (exn + 'a) \<times> 'w) \<Rightarrow> 'w \<Rightarrow> (exn + 'a) \<times> 'w" where
  "retry n f w =
     (case f w of (Inr v, w') \<Rightarrow> (Inr v, w') | (Inl e, w') \<Rightarrow> retry_more (n - 1) f e w')"

section \<open>services/embedding\_service.py\<close>

text \<open>The body of \<^verbatim>\<open>create_embedding\<close>, one attempt.\<close>

definition create_embedding_attempt :: "'s remote \<Rightarrow> ustr \<Rightarrow> 's world \<Rightarrow> (exn + vec) \<times> 's world" where
  "create_embedding_attempt R t w =
     (case call_embed R t w of
        (Inr v, w') \<Rightarrow> (Inr v, w')
      | (Inl m, w') \<Rightarrow>
          if str_in (ascii ''API key not valid'') m
          then (Inl (ValueError (ascii ''Invalid Google API key. Please check your .env file.'')), w')
          else (Inl (ValueError (ascii ''Error creating embedding: '' @ m)), w'))"

definition create_embedding :: "'s remote \<Rightarrow> ustr \<Rightarrow> 's world \<Rightarrow> (exn + vec) \<times> 's world" where
  "create_embedding R t = retry 3 (create_embedding_attempt R t)"






definition embed_query :: "'s remote \<Rightarrow> ustr \<Rightarrow> 's world \<Rightarrow> (exn + vec) \<times> 's world" where
  "embed_query R query = create_embedding R query"

section \<open>services/pinecone\_service.py\<close>

text \<open>
  \<^verbatim>\<open>get_index\<close>: the handle kept in the global \<^verbatim>\<open>_index\<close> is returned when there is one;
  otherwise the index is looked up, created when missing, and the handle is kept. An
  exception of \<^verbatim>\<open>list_indexes\<close> or \<^verbatim>\<open>create_index\<close> is not caught. Building the handle
  object itself does not call the service.
\<close>

definition get_index :: "'s remote \<Rightarrow> settings \<Rightarrow> 's world \<Rightarrow> (exn + unit) \<times> 's world" where
  "get_index R cfg w =
     (if index_handle w then (Inr (), w)
      else (case list_indexes R (ext w) of
              (Inl m, s1) \<Rightarrow> (Inl (BackendError m), w\<lparr>ext := s1\<rparr>)
            | (Inr names, s1) \<Rightarrow>
                if PINECONE_INDEX_NAME cfg \<notin> set names then
                  (case create_index R (PINECONE_INDEX_NAME cfg) s1 of
                     (Inl m, s2) \<Rightarrow> (Inl (BackendError m), w\<lparr>ext := s2\<rparr>)
                   | (Inr u, s2) \<Rightarrow> (Inr (), w\<lparr>ext := s2, index_handle := True\<rparr>))
                else (Inr (), w\<lparr>ext := s1, index_handle := True\<rparr>)))"







text \<open>A retrieved chunk: \<^verbatim>\<open>{"text", "source", "page_number", "chunk_id", "score"}\<close>.\<close>

record retrieved =
  r_text :: "ustr option"
  r_source :: "ustr option"
  r_page_number :: "int option"
  r_chunk_id :: "ustr option"
  r_score :: "real option"

definition get_or :: "'a option \<Rightarrow> 'a \<Rightarrow> 'a" where
  "get_or x d = (case x of None \<Rightarrow> d | Some v \<Rightarrow> v)"

definition to_retrieved :: "pinecone_match \<Rightarrow> retrieved" where
  "to_retrieved m =
     (let metadata = get_or (m_metadata m)
            \<lparr>md_text = None, md_source = None, md_page_number = None, md_chunk_id = None\<rparr>
      in \<lparr>r_text = Some (get_or (md_text metadata) []),
          r_source = Some (get_or (md_source metadata) []),
          r_page_number = Some (get_or (md_page_number metadata) 0),
          r_chunk_id = Some (get_or (md_chunk_id metadata) []),
          r_score = Some (get_or (m_score m) 0)\<rparr>)"

definition similarity_search_attempt ::
  "'s remote \<Rightarrow> settings \<Rightarrow> vec \<Rightarrow> int option \<Rightarrow> ustr \<Rightarrow> 's world
     \<Rightarrow> (exn + retrieved list) \<times> 's world" where
  "similarity_search_attempt R cfg query_embedding top_k ns w =
     (case get_index R cfg w of
        (Inl e, w1) \<Rightarrow> (Inl e, w1)
      | (Inr u, w1) \<Rightarrow>
          (case call_query R query_embedding (py_or top_k (TOP_K_RESULTS cfg)) ns w1 of
             (Inl m, w2) \<Rightarrow> (Inl (BackendError m), w2)
           | (Inr response, w2) \<Rightarrow> (Inr (map to_retrieved (get_or response [])), w2)))"

definition similarity_search ::
  "'s remote \<Rightarrow> settings \<Rightarrow> vec \<Rightarrow> int option \<Rightarrow> ustr \<Rightarrow> 's world
     \<Rightarrow> (exn + retrieved list) \<times> 's world" where
  "similarity_search R cfg query_embedding top_k ns =
     retry 3 (similarity_search_attempt R cfg query_embedding top_k ns)"

section \<open>services/rag\_service.py\<close>

text \<open>\<^verbatim>\<open>str(n)\<close> for an integer.\<close>

function str_nat :: "nat \<Rightarrow> ustr" where
  "str_nat n = (if n < 10 then [48 + n] else str_nat (n div 10) @ [48 + n mod 10])"
  by pat_completeness auto
termination
  by (relation "measure id") auto

declare str_nat.simps [simp del]

definition str_int :: "int \<Rightarrow> ustr" where
  "str_int i = (if i < 0 then 45 # str_nat (nat (- i)) else str_nat (nat i))"

text \<open>The text appended to the context for the chunk at position \<open>i\<close> (from \<open>0\<close>).\<close>

definition context_block :: "nat \<Rightarrow> retrieved \<Rightarrow> ustr" where
  "context_block i c =
     [10, 10] @ ascii ''CONTEXT CHUNK '' @ str_nat (i + 1) @ ascii '' [Source: ''
     @ get_or (r_source c) (ascii ''Unknown'') @ ascii '', Page: ''
     @ str_int (get_or (r_page_number c) 0) @ ascii '']:'' @ [10]
     @ get_or (r_text c) []"

fun context_blocks :: "nat \<Rightarrow> retrieved list \<Rightarrow> ustr" where
  "context_blocks i [] = []"
| "context_blocks i (c # cs) = context_block i c @ context_blocks (Suc i) cs"

text \<open>
  \<^verbatim>\<open>format_context\<close>. \<^verbatim>\<open>sorted(..., reverse=True)\<close> keeps chunks of equal score in their
  order, as the stable \<open>sort_key\<close> on the negated score does. Every chunk of the sorted list
  is rendered.
\<close>

definition format_context :: "retrieved list \<Rightarrow> ustr" where
  "format_context context_chunks =
     context_blocks 0 (sort_key (\<lambda>x. - get_or (r_score x) 0) context_chunks)"

definition rag_prompt :: "ustr \<Rightarrow> ustr \<Rightarrow> ustr" where
  "rag_prompt query context =
     ascii ''You are an AI assistant that answers questions based on the provided context.''
     @ [10] @ ascii ''    '' @ [10]
     @ ascii ''CONTEXT:'' @ [10] @ context @ [10, 10]
     @ ascii ''USER QUERY: '' @ query @ [10, 10]
     @ ascii ''Please answer the query based only on the provided context. If the context doesn''
     @ [39] @ ascii ''t contain relevant information to answer the query, '' @ [10]
     @ ascii ''state that you don'' @ [39]
     @ ascii ''t have enough information to provide a complete answer. Do not make up information.''
     @ [10]
     @ ascii ''Cite the sources (document name and page number) when providing information from the context.''
     @ [10, 10] @ ascii ''ANSWER:''"

definition generate_response_attempt ::
  "'s remote \<Rightarrow> ustr \<Rightarrow> retrieved list \<Rightarrow> 's world \<Rightarrow> (exn + ustr) \<times> 's world" where
  "generate_response_attempt R query context_chunks w =
     (case call_generate R (rag_prompt query (format_context context_chunks)) w of
        (Inr response_text, w') \<Rightarrow> (Inr response_text, w')
      | (Inl m, w') \<Rightarrow> (Inl (ValueError (ascii ''Error generating response: '' @ m)), w'))"

definition generate_response ::
  "'s remote \<Rightarrow> ustr \<Rightarrow> retrieved list \<Rightarrow> 's world \<Rightarrow> (exn + ustr) \<times> 's world" where
  "generate_response R query context_chunks =
     retry 3 (generate_response_attempt R query context_chunks)"

record query_result =
  response :: ustr
  sources :: "retrieved list"

definition process_query ::
  "'s remote \<Rightarrow> settings \<Rightarrow> ustr \<Rightarrow> ustr \<Rightarrow> 's world \<Rightarrow> (exn + query_result) \<times> 's world" where
  "process_query R cfg query ns w =
     (case embed_query R query w of
        (Inl e, w1) \<Rightarrow> (Inl e, w1)
      | (Inr query_embedding, w1) \<Rightarrow>
          (case similarity_search R cfg query_embedding (Some (TOP_K_RESULTS cfg)) ns w1 of
             (Inl e, w2) \<Rightarrow> (Inl e, w2)
           | (Inr context_chunks, w2) \<Rightarrow>
               (case generate_response R query context_chunks w2 of
                  (Inl e, w3) \<Rightarrow> (Inl e, w3)
                | (Inr response_text, w3) \<Rightarrow>
                    (Inr \<lparr>response = response_text, sources = context_chunks\<rparr>, w3))))"

section \<open>gemini\_rag\_chatbot.py: the same steps in class RAGChatbot\<close>

text \<open>
  \<^verbatim>\<open>RAGChatbot._get_embedding\<close>: a text that is empty after \<^verbatim>\<open>strip()\<close> gets the zero
  vector before the service is called; an exception of the service gives the zero
  vector too. There is no retry.
\<close>

definition RAGChatbot_get_embedding :: "'s remote \<Rightarrow> ustr \<Rightarrow> 's world \<Rightarrow> vec \<times> 's world" where
  "RAGChatbot_get_embedding R t w =
     (if py_strip t = [] then (zero768, w)
      else (case call_embed R t w of
              (Inr v, w') \<Rightarrow> (v, w')
            | (Inl m, w') \<Rightarrow> (zero768, w')))"

record retrieved_doc =
  d_content :: ustr
  d_source_file :: "ustr option"
  d_distance :: real
  d_id :: ustr

definition document_line :: "nat \<Rightarrow> retrieved_doc \<Rightarrow> ustr" where
  "document_line i doc =
     ascii ''Document '' @ str_nat (i + 1) @ ascii '' (Source: ''
     @ get_or (d_source_file doc) (ascii ''N/A'') @ ascii ''): '' @ d_content doc"

text \<open>\<^verbatim>\<open>"\n\n".join(...)\<close> over \<^verbatim>\<open>enumerate(docs)\<close>, counting from \<open>i\<close>.\<close>

fun document_lines :: "nat \<Rightarrow> retrieved_doc list \<Rightarrow> ustr" where
  "document_lines i [] = []"
| "document_lines i [doc] = document_line i doc"
| "document_lines i (doc # doc' # docs) =
     document_line i doc @ [10, 10] @ document_lines (Suc i) (doc' # docs)"

definition chatbot_prompt :: "ustr \<Rightarrow> ustr \<Rightarrow> ustr" where
  "chatbot_prompt query context =
     ascii ''You are a helpful assistant. Answer the following question based ONLY on the context provided below. If the information is not in the context, say ''
     @ [34] @ ascii ''I don'' @ [39] @ ascii ''t have enough information to answer that question.''
     @ [34, 10, 10]
     @ ascii ''Context:'' @ [10] @ context @ [10, 10]
     @ ascii ''Question: '' @ query @ [10, 10] @ ascii ''Answer:''"

text \<open>
  \<^verbatim>\<open>RAGChatbot.generate_response\<close>: with no retrieved document the fixed answer is
  returned at once; otherwise the first three documents make the context.
\<close>

definition RAGChatbot_generate_response ::
  "'s remote \<Rightarrow> ustr \<Rightarrow> retrieved_doc list \<Rightarrow> 's world \<Rightarrow> ustr \<times> 's world" where
  "RAGChatbot_generate_response R query retrieved_docs w =
     (if retrieved_docs = [] then
        (ascii ''I couldn'' @ [39]
           @ ascii ''t find any relevant information to answer your question.'', w)
      else (case call_generate R
                   (chatbot_prompt query (document_lines 0 (take 3 retrieved_docs))) w of
              (Inr response_text, w') \<Rightarrow> (py_strip response_text, w')
            | (Inl m, w') \<Rightarrow> (ascii ''There was an error generating a response.'', w')))"

text \<open>
  \<^verbatim>\<open>RAGChatbot.chunk_text\<close>: the window always moves by \<^verbatim>\<open>chunk_size - overlap\<close>; there is
  no search for a break, and an empty chunk is dropped.
\<close>

partial_function (option) RAGChatbot_chunk_loop ::
  "ustr \<Rightarrow> int \<Rightarrow> int \<Rightarrow> int \<Rightarrow> ustr list \<Rightarrow> ustr list option" where
  "RAGChatbot_chunk_loop txt chunk_size overlap start chunks =
     (if start < int (length txt) then
        RAGChatbot_chunk_loop txt chunk_size overlap (start + (chunk_size - overlap))
          (if py_strip (py_slice txt start (start + chunk_size)) \<noteq> []
           then chunks @ [py_strip (py_slice txt start (start + chunk_size))]
           else chunks)
      else Some chunks)"

definition RAGChatbot_chunk_text :: "ustr \<Rightarrow> int \<Rightarrow> int \<Rightarrow> ustr list option" where
  "RAGChatbot_chunk_text txt chunk_size overlap =
     (if int (length txt) \<le> chunk_size then Some [txt]
      else RAGChatbot_chunk_loop txt chunk_size overlap 0 [])"

section \<open>Windows of a chunking run\<close>

text \<open>
  \<open>windows_ok T cs ov start spans texts\<close>: the windows \<open>spans\<close>, with the chunk texts
  \<open>texts\<close> cut from them, are a complete run of the loop on \<open>T\<close> from \<open>start\<close>: each window
  begins where the loop stands, is longer than the overlap and at most \<open>cs\<close> long, its
  chunk is the stripped slice, the next window begins \<open>ov\<close> before its end, and after the
  last window the loop has left the text.
\<close>

fun windows_ok :: "ustr \<Rightarrow> int \<Rightarrow> int \<Rightarrow> int \<Rightarrow> (int \<times> int) list \<Rightarrow> ustr list \<Rightarrow> bool" where
  "windows_ok T cs ov start [] [] = (int (length T) \<le> start)"
| "windows_ok T cs ov start ((s, e) # spans) (c # texts) =
     (s = start \<and> 0 \<le> s \<and> s < int (length T) \<and> ov < e - s \<and> e \<le> s + cs
      \<and> c = py_strip (py_slice T s e) \<and> windows_ok T cs ov (e - ov) spans texts)"
| "windows_ok T cs ov start [] (c # texts) = False"
| "windows_ok T cs ov start (w # spans) [] = False"

section \<open>Concrete inputs\<close>

definition demo_settings :: settings where
  "demo_settings =
     \<lparr>GOOGLE_API_KEY = ascii ''g-key'', PINECONE_API_KEY = ascii ''p-key'',
      PINECONE_ENVIRONMENT = ascii ''us-east1'', PINECONE_INDEX_NAME = ascii ''rag_chatbot_index'',
      CHUNK_SIZE = 500, CHUNK_OVERLAP = 100, TOP_K_RESULTS = 5\<rparr>"

definition demo_ids :: "nat \<Rightarrow> ustr" where
  "demo_ids n = ascii ''uuid-'' @ str_nat n"

definition fresh_world :: "'s \<Rightarrow> 's world" where
  "fresh_world s =
     \<lparr>ext = s, index_handle = False, embed_log = [], generate_log = [], upsert_log = [],
      query_log = []\<rparr>"

text \<open>Services that always answer; the index exists and the query returns \<open>matches\<close>.\<close>

definition answering_remote :: "pinecone_match list \<Rightarrow> unit remote" where
  "answering_remote matches =
     \<lparr>embed_content = (\<lambda>t s. (Inr [1, 0, 0], s)),
      generate_content = (\<lambda>p s. (Inr (ascii ''MODEL ANSWER''), s)),
      list_indexes = (\<lambda>s. (Inr [ascii ''rag_chatbot_index''], s)),
      create_index = (\<lambda>n s. (Inr (), s)),
      index_upsert = (\<lambda>b ns s. (Inr (Some (int (length b))), s)),
      index_query = (\<lambda>v k ns s. (Inr (Some matches), s))\<rparr>"




definition demo_match :: "string \<Rightarrow> int \<Rightarrow> real \<Rightarrow> pinecone_match" where
  "demo_match t p sc =
     \<lparr>m_metadata = Some \<lparr>md_text = Some (ascii t), md_source = Some (ascii ''a.pdf''),
                          md_page_number = Some p, md_chunk_id = Some (ascii ''id-'' @ ascii t)\<rparr>,
      m_score = Some sc\<rparr>"

definition four_matches :: "pinecone_match list" where
  "four_matches =
     [demo_match ''gamma'' 3 (7 / 10), demo_match ''alpha'' 1 (9 / 10),
      demo_match ''delta'' 4 (6 / 10), demo_match ''beta'' 2 (8 / 10)]"


section \<open>Facts about the string primitives\<close>


lemma set_sub_runs: "set (sub_runs C r s) \<subseteq> insert r {c \<in> set s. \<not> C c}"
proof (induction C r s rule: sub_runs.induct)
  case (1 C r)
  then show ?case by simp
next
  case (2 C r c cs)
  have "set (dropWhile C cs) \<subseteq> set cs" by (simp add: set_dropWhileD subsetI)
  with 2 show ?case by (auto split: if_splits)
qed

lemma set_py_strip: "set (py_strip s) \<subseteq> set s"
  unfolding py_strip_def by (auto dest!: set_dropWhileD)

lemma length_py_strip: "length (py_strip s) \<le> length s"
proof -
  have "length (py_strip s) \<le> length (dropWhile is_space s)"
    unfolding py_strip_def
    using length_dropWhile_le [of is_space "rev (dropWhile is_space s)"] by simp
  also have "\<dots> \<le> length s" by (rule length_dropWhile_le)
  finally show ?thesis .
qed

lemma clean_text_printable: "c \<in> set (clean_text t) \<Longrightarrow> 32 \<le> c \<and> c \<le> 126"
proof -
  assume c: "c \<in> set (clean_text t)"
  let ?t1 = "sub_runs (\<lambda>c. c = 10) 10 t"
  let ?t2 = "sub_runs is_space 32 ?t1"
  let ?t3 = "filter (\<lambda>c. (32 \<le> c \<and> c \<le> 126) \<or> c = 10) ?t2"
  from c have "c \<in> set ?t3"
    using set_py_strip [of ?t3] by (auto simp: clean_text_def Let_def)
  then have in2: "c \<in> set ?t2" and rng: "(32 \<le> c \<and> c \<le> 126) \<or> c = 10" by auto
  from in2 set_sub_runs [of is_space 32 ?t1] have "c = 32 \<or> \<not> is_space c" by auto
  then have "c \<noteq> 10" by (auto simp: is_space_def)
  with rng show ?thesis by simp
qed

lemma clean_text_newline_free: "10 \<notin> set (clean_text t)"
  using clean_text_printable [of 10 t] by auto

lemma set_py_slice: "set (py_slice s a b) \<subseteq> set s"
  unfolding py_slice_def Let_def by (meson in_set_dropD in_set_takeD subsetI)

lemma length_py_slice: "0 \<le> a \<Longrightarrow> 0 \<le> b \<Longrightarrow> length (py_slice s a b) \<le> nat (b - a)"
  unfolding py_slice_def Let_def slice_index_def by auto

lemma rfind_from_range: "rfind_from s p i = - 1 \<or> (0 \<le> rfind_from s p i \<and> rfind_from s p i \<le> int i)"
  by (induction i) auto

lemma py_rfind_range:
  "py_rfind s p = - 1 \<or> (0 \<le> py_rfind s p \<and> py_rfind s p + int (length p) \<le> int (length s))"
  using rfind_from_range [of s p "length s - length p"] unfolding py_rfind_def by auto

lemma rfind_from_absent: "p \<noteq> [] \<Longrightarrow> hd p \<notin> set s \<Longrightarrow> rfind_from s p i = - 1"
proof (induction i)
  case 0
  then show ?case by (cases p; cases s) auto
next
  case (Suc i)
  have "take (length p) (drop (Suc i) s) \<noteq> p"
  proof
    assume eq: "take (length p) (drop (Suc i) s) = p"
    with Suc.prems(1) have "hd p \<in> set (take (length p) (drop (Suc i) s))"
      by (metis hd_in_set)
    then have "hd p \<in> set s" by (meson in_set_dropD in_set_takeD)
    with Suc.prems(2) show False by simp
  qed
  with Suc show ?case by simp
qed

lemma py_rfind_absent: "p \<noteq> [] \<Longrightarrow> hd p \<notin> set s \<Longrightarrow> py_rfind s p = - 1"
  unfolding py_rfind_def by (simp add: rfind_from_absent)

lemma next_window_step:
  assumes nl: "10 \<notin> set T" and s0: "0 \<le> start" and cs: "0 < cs"
    and ov: "ov < cs" "ov \<le> cs div 2 + 2"
  shows "snd (next_window T cs start) = py_slice T start (fst (next_window T cs start))
       \<and> ov < fst (next_window T cs start) - start
       \<and> fst (next_window T cs start) \<le> start + cs"
proof -
  let ?c0 = "py_slice T start (start + cs)"
  have "10 \<notin> set ?c0" using nl set_py_slice [of T start "start + cs"] by auto
  then have pb: "py_rfind ?c0 [10] = - 1" by (simp add: py_rfind_absent)
  have len: "int (length ?c0) \<le> cs"
    using length_py_slice [of start "start + cs" T] s0 cs by simp
  have sb: "py_rfind ?c0 [46, 32] = - 1 \<or> (0 \<le> py_rfind ?c0 [46, 32] \<and> py_rfind ?c0 [46, 32] + 2 \<le> cs)"
    using py_rfind_range [of ?c0 "[46, 32]"] len by auto
  show ?thesis
    unfolding next_window_def Let_def using pb sb cs ov by auto
qed



section \<open>The chunking loop\<close>
lemma chunk_loop_returns:
  assumes nl: "10 \<notin> set T" and cs: "0 < cs" and ov: "0 \<le> ov" "ov < cs" "ov \<le> cs div 2 + 2"
  shows "0 \<le> start \<Longrightarrow>
         \<exists>chunks' spans'.
           chunk_loop T pn src cs ov ids start chunks spans = Some (chunks @ chunks', spans @ spans')
         \<and> windows_ok T cs ov start spans' (map c_text chunks')"
proof (induction "nat (int (length T) - start)" arbitrary: start chunks spans rule: less_induct)
  case less
  show ?case
  proof (cases "start < int (length T)")
    case False
    then have "chunk_loop T pn src cs ov ids start chunks spans = Some (chunks @ [], spans @ [])"
      by (subst chunk_loop.simps) simp
    moreover have "windows_ok T cs ov start [] (map c_text [])" using False by simp
    ultimately show ?thesis by blast
  next
    case True
    define e where "e = fst (next_window T cs start)"
    define x where "x = \<lparr>c_text = py_strip (snd (next_window T cs start)), c_page_number = pn,
                          c_source = src, c_chunk_id = ids (length chunks)\<rparr>"
    have step: "snd (next_window T cs start) = py_slice T start e" "ov < e - start" "e \<le> start + cs"
      using next_window_step [OF nl less.prems cs ov(2,3)] by (simp_all add: e_def)
    have unf: "chunk_loop T pn src cs ov ids start chunks spans
             = chunk_loop T pn src cs ov ids (e - ov) (chunks @ [x]) (spans @ [(start, e)])"
      by (subst chunk_loop.simps) (simp add: True e_def x_def)
    have "nat (int (length T) - (e - ov)) < nat (int (length T) - start)"
      using step(2) True by linarith
    moreover have "0 \<le> e - ov" using step(2) less.prems by linarith
    ultimately obtain chunks'' spans'' where
      r: "chunk_loop T pn src cs ov ids (e - ov) (chunks @ [x]) (spans @ [(start, e)])
            = Some ((chunks @ [x]) @ chunks'', (spans @ [(start, e)]) @ spans'')"
      and w: "windows_ok T cs ov (e - ov) spans'' (map c_text chunks'')"
      using less.hyps [of "e - ov" "chunks @ [x]" "spans @ [(start, e)]"] by blast
    have "chunk_loop T pn src cs ov ids start chunks spans
            = Some (chunks @ (x # chunks''), spans @ ((start, e) # spans''))"
      using unf r by simp
    moreover have "windows_ok T cs ov start ((start, e) # spans'') (map c_text (x # chunks''))"
      using w step True less.prems by (simp add: x_def)
    ultimately show ?thesis by blast
  qed
qed


lemma windows_ok_length: "windows_ok T cs ov start spans texts \<Longrightarrow> length texts = length spans"
  by (induction T cs ov start spans texts rule: windows_ok.induct) auto

lemma windows_ok_nth:
  "windows_ok T cs ov start spans texts \<Longrightarrow> k < length spans \<Longrightarrow>
     texts ! k = py_strip (py_slice T (fst (spans ! k)) (snd (spans ! k)))
   \<and> 0 \<le> fst (spans ! k) \<and> fst (spans ! k) < int (length T)
   \<and> ov < snd (spans ! k) - fst (spans ! k) \<and> snd (spans ! k) \<le> fst (spans ! k) + cs"
proof (induction T cs ov start spans texts arbitrary: k rule: windows_ok.induct)
  case (2 T cs ov start s e spans c texts)
  then show ?case by (cases k) auto
qed auto

lemma windows_ok_hd: "windows_ok T cs ov start spans texts \<Longrightarrow> spans \<noteq> [] \<Longrightarrow> fst (spans ! 0) = start"
  by (induction T cs ov start spans texts rule: windows_ok.induct) auto

lemma windows_ok_next:
  "windows_ok T cs ov start spans texts \<Longrightarrow> Suc k < length spans \<Longrightarrow>
     fst (spans ! Suc k) = snd (spans ! k) - ov"
proof (induction T cs ov start spans texts arbitrary: k rule: windows_ok.induct)
  case (2 T cs ov start s e spans c texts)
  show ?case
  proof (cases k)
    case 0
    from "2.prems" have "spans \<noteq> []" by auto
    with "2.prems" windows_ok_hd [of T cs ov "e - ov" spans texts] 0 show ?thesis by simp
  next
    case (Suc j)
    with 2 show ?thesis by simp
  qed
qed auto

lemma windows_ok_last:
  "windows_ok T cs ov start spans texts \<Longrightarrow> spans \<noteq> [] \<Longrightarrow>
     int (length T) \<le> snd (last spans) - ov"
proof (induction T cs ov start spans texts rule: windows_ok.induct)
  case (2 T cs ov start s e spans c texts)
  then show ?case by (cases spans; cases texts) auto
qed auto

lemma windows_ok_cover:
  "windows_ok T cs ov start spans texts \<Longrightarrow> 0 \<le> ov \<Longrightarrow> start \<le> int i \<Longrightarrow> i < length T \<Longrightarrow>
     \<exists>k<length spans. fst (spans ! k) \<le> int i \<and> int i < snd (spans ! k)"
proof (induction T cs ov start spans texts rule: windows_ok.induct)
  case (2 T cs ov start s e spans c texts)
  show ?case
  proof (cases "int i < e")
    case True
    with "2.prems" have "fst (((s, e) # spans) ! 0) \<le> int i \<and> int i < snd (((s, e) # spans) ! 0)"
      by simp
    then show ?thesis by blast
  next
    case False
    with 2 obtain k where "k < length spans" "fst (spans ! k) \<le> int i" "int i < snd (spans ! k)"
      by fastforce
    then have "Suc k < length ((s, e) # spans) \<and> fst (((s, e) # spans) ! Suc k) \<le> int i
               \<and> int i < snd (((s, e) # spans) ! Suc k)" by simp
    then show ?thesis by blast
  qed
qed auto


text \<open>
  A run that stays inside a set of loop states none of which leaves the loop does not
  return.
\<close>

lemma chunk_loop_diverges:
  assumes inv: "I start"
    and step: "\<And>s. I s \<Longrightarrow> s < int (length T) \<and> I (fst (next_window T cs s) - ov)"
  shows "chunk_loop T pn src cs ov ids start chunks spans = None"
proof (rule ccontr)
  assume "chunk_loop T pn src cs ov ids start chunks spans \<noteq> None"
  then obtain y where y: "chunk_loop T pn src cs ov ids start chunks spans = Some y" by auto
  have "\<not> (T = T \<and> cs = cs \<and> ov = ov \<and> I start)"
  proof (rule chunk_loop.raw_induct
      [where P = "\<lambda>t p s c v i st ch sp r. \<not> (t = T \<and> c = cs \<and> v = ov \<and> I st)", OF _ y])
    fix f :: "ustr \<Rightarrow> int \<Rightarrow> ustr \<Rightarrow> int \<Rightarrow> int \<Rightarrow> (nat \<Rightarrow> ustr) \<Rightarrow> int \<Rightarrow> chunk list \<Rightarrow> (int \<times> int) list
                \<Rightarrow> (chunk list \<times> (int \<times> int) list) option"
      and t p s c v i st ch sp r
    assume IH: "\<And>t p s c v i st ch sp r. f t p s c v i st ch sp = Some r
                  \<Longrightarrow> \<not> (t = T \<and> c = cs \<and> v = ov \<and> I st)"
      and body: "(if st < int (length t)
           then f t p s c v i (fst (next_window t c st) - v)
                 (ch @ [\<lparr>c_text = py_strip (snd (next_window t c st)), c_page_number = p,
                          c_source = s, c_chunk_id = i (length ch)\<rparr>])
                 (sp @ [(st, fst (next_window t c st))])
           else Some (ch, sp)) = Some r"
    show "\<not> (t = T \<and> c = cs \<and> v = ov \<and> I st)"
    proof
      assume eq: "t = T \<and> c = cs \<and> v = ov \<and> I st"
      with step [of st] have lt: "st < int (length T)"
        and nxt: "I (fst (next_window T cs st) - ov)" by simp_all
      with body eq obtain ch' sp' where
        "f T p s cs ov i (fst (next_window T cs st) - ov) ch' sp' = Some r"
        by (auto split: if_splits)
      with IH nxt show False by blast
    qed
  qed
  with inv show False by simp
qed

lemma chunk_loop_stuck:
  assumes stay: "fst (next_window T cs start) - ov = start" and lt: "start < int (length T)"
  shows "chunk_loop T pn src cs ov ids start chunks spans = None"
proof (rule chunk_loop_diverges [where I = "\<lambda>s. s = start"])
  show "start = start" by simp
next
  fix s
  assume "s = start"
  with stay lt show "s < int (length T) \<and> fst (next_window T cs s) - ov = start" by simp
qed

section \<open>Claims about the text cleaner and the chunker\<close>

lemmas chunk_eval = ascii_def clean_text_def is_space_def py_strip_def next_window_def
  py_slice_def slice_index_def py_rfind_def py_or_def str_nat.simps demo_ids_def Let_def

text \<open>
  Claim C10. For every input string the output of \<open>clean_text\<close> contains no newline
  character (code point 10), so the search for a paragraph break that \<open>chunk_text\<close> makes in
  a window \<open>text[a:b]\<close> of the cleaned text finds none: \<open>rfind\<close> returns \<open>-1\<close>.
\<close>

theorem clean_text_no_newline:
  "10 \<notin> set (clean_text t) \<and> py_rfind (py_slice (clean_text t) a b) [10] = - 1"
proof -
  have "10 \<notin> set (py_slice (clean_text t) a b)"
    using set_py_slice [of "clean_text t" a b] clean_text_newline_free [of t] by auto
  then show ?thesis
    using clean_text_newline_free [of t] by (simp add: py_rfind_absent)
qed

text \<open>
  Claim C4, as the code has it. Let \<open>cs\<close> and \<open>ov\<close> be the chunk size and the overlap in
  force (the argument, or the setting when the argument is absent or \<open>0\<close>) and \<open>T\<close> the
  cleaned text, with \<open>len(T) > cs\<close>, \<open>0 \<le> ov < cs\<close> and \<open>ov \<le> cs div 2 + 2\<close>. Then
  \<open>chunk_text\<close> returns; every chunk is the slice of \<open>T\<close> under its window with leading and
  trailing whitespace removed, and is at most \<open>cs\<close> characters long; every window is
  non-empty, at most \<open>cs\<close> long and starts inside \<open>T\<close>; the first window starts at \<open>0\<close>, each
  next window starts exactly \<open>ov\<close> positions before the end of the one before it and
  strictly after its start, the last window reaches the end of \<open>T\<close>, and so the windows
  cover every position of \<open>T\<close>.
\<close>

theorem chunk_text_windows:
  assumes cs: "cs = py_or chunk_size (CHUNK_SIZE cfg)"
    and ov: "ov = py_or chunk_overlap (CHUNK_OVERLAP cfg)"
    and T: "T = clean_text txt"
    and long: "cs < int (length T)"
    and bounds: "0 \<le> ov" "ov < cs" "ov \<le> cs div 2 + 2"
  shows "\<exists>chunks spans.
      chunk_text_spans cfg ids txt pn src chunk_size chunk_overlap = Some (chunks, spans)
    \<and> chunk_text cfg ids txt pn src chunk_size chunk_overlap = Some chunks
    \<and> length chunks = length spans \<and> spans \<noteq> []
    \<and> fst (spans ! 0) = 0 \<and> int (length T) \<le> snd (last spans)
    \<and> (\<forall>k<length spans.
           c_text (chunks ! k) = py_strip (py_slice T (fst (spans ! k)) (snd (spans ! k)))
         \<and> int (length (c_text (chunks ! k))) \<le> cs
         \<and> 0 \<le> fst (spans ! k) \<and> fst (spans ! k) < int (length T)
         \<and> fst (spans ! k) < snd (spans ! k) \<and> snd (spans ! k) - fst (spans ! k) \<le> cs)
    \<and> (\<forall>k. Suc k < length spans \<longrightarrow>
           snd (spans ! k) - fst (spans ! Suc k) = ov \<and> fst (spans ! k) < fst (spans ! Suc k))
    \<and> (\<forall>i<length T. \<exists>k<length spans. fst (spans ! k) \<le> int i \<and> int i < snd (spans ! k))"
proof -
  have nl: "10 \<notin> set T" unfolding T by (rule clean_text_newline_free)
  have pos: "0 < cs" using bounds by simp
  obtain chunks spans where
    run: "chunk_loop T pn src cs ov ids 0 [] [] = Some (chunks, spans)"
    and ok: "windows_ok T cs ov 0 spans (map c_text chunks)"
    using chunk_loop_returns [OF nl pos bounds, of 0 pn src ids "[]" "[]"] by auto
  have res: "chunk_text_spans cfg ids txt pn src chunk_size chunk_overlap = Some (chunks, spans)"
    unfolding chunk_text_spans_def Let_def using cs ov T long run by simp
  have len: "length chunks = length spans" using windows_ok_length [OF ok] by simp
  have ne: "spans \<noteq> []"
  proof
    assume "spans = []"
    with ok len have "int (length T) \<le> 0" by simp
    with long pos show False by simp
  qed
  have each: "c_text (chunks ! k) = py_strip (py_slice T (fst (spans ! k)) (snd (spans ! k)))
         \<and> int (length (c_text (chunks ! k))) \<le> cs
         \<and> 0 \<le> fst (spans ! k) \<and> fst (spans ! k) < int (length T)
         \<and> fst (spans ! k) < snd (spans ! k) \<and> snd (spans ! k) - fst (spans ! k) \<le> cs"
    if k: "k < length spans" for k
  proof -
    note w = windows_ok_nth [OF ok k]
    have tk: "c_text (chunks ! k) = py_strip (py_slice T (fst (spans ! k)) (snd (spans ! k)))"
      using w k len by simp
    have "length (c_text (chunks ! k)) \<le> length (py_slice T (fst (spans ! k)) (snd (spans ! k)))"
      unfolding tk by (rule length_py_strip)
    also have "\<dots> \<le> nat (snd (spans ! k) - fst (spans ! k))"
      using w bounds by (intro length_py_slice) linarith+
    finally have "length (c_text (chunks ! k)) \<le> nat (snd (spans ! k) - fst (spans ! k))" .
    moreover have "snd (spans ! k) - fst (spans ! k) \<le> cs" using w by simp
    ultimately have "int (length (c_text (chunks ! k))) \<le> cs" using pos by linarith
    with tk w bounds show ?thesis by simp
  qed
  have nxt: "snd (spans ! k) - fst (spans ! Suc k) = ov \<and> fst (spans ! k) < fst (spans ! Suc k)"
    if k: "Suc k < length spans" for k
  proof -
    have "fst (spans ! Suc k) = snd (spans ! k) - ov" by (rule windows_ok_next [OF ok k])
    moreover have "ov < snd (spans ! k) - fst (spans ! k)"
      using windows_ok_nth [OF ok, of k] k by simp
    ultimately show ?thesis by simp
  qed
  have lst: "int (length T) \<le> snd (last spans)"
    using windows_ok_last [OF ok ne] bounds by simp
  have cov: "\<exists>k<length spans. fst (spans ! k) \<le> int i \<and> int i < snd (spans ! k)"
    if "i < length T" for i
    using windows_ok_cover [OF ok bounds(1) _ that] by simp
  have ct: "chunk_text cfg ids txt pn src chunk_size chunk_overlap = Some chunks"
    using res by (simp add: chunk_text_def)
  note first = windows_ok_hd [OF ok ne]
  from each have A: "\<forall>k<length spans.
           c_text (chunks ! k) = py_strip (py_slice T (fst (spans ! k)) (snd (spans ! k)))
         \<and> int (length (c_text (chunks ! k))) \<le> cs
         \<and> 0 \<le> fst (spans ! k) \<and> fst (spans ! k) < int (length T)
         \<and> fst (spans ! k) < snd (spans ! k) \<and> snd (spans ! k) - fst (spans ! k) \<le> cs"
    by blast
  from nxt have B: "\<forall>k. Suc k < length spans \<longrightarrow>
           snd (spans ! k) - fst (spans ! Suc k) = ov \<and> fst (spans ! k) < fst (spans ! Suc k)"
    by blast
  from cov have C: "\<forall>i<length T. \<exists>k<length spans. fst (spans ! k) \<le> int i \<and> int i < snd (spans ! k)"
    by blast
  from res ct len ne first lst A B C show ?thesis by blast
qed


theorem chunk_text_windows_witness:
  "(10::int) < int (length (clean_text (ascii ''abcdef. ghijklmnop'')))
   \<and> (0::int) \<le> 7 \<and> (7::int) < 10 \<and> (7::int) \<le> 10 div 2 + 2
   \<and> (\<exists>chunks spans.
         chunk_text demo_settings demo_ids (ascii ''abcdef. ghijklmnop'') 1 (ascii ''a.pdf'')
           (Some 10) (Some 7) = Some chunks
       \<and> length chunks = length spans \<and> fst (spans ! 0) = 0
       \<and> int (length (clean_text (ascii ''abcdef. ghijklmnop''))) \<le> snd (last spans)
       \<and> (\<forall>k<length spans. int (length (c_text (chunks ! k))) \<le> 10)
       \<and> (\<forall>k. Suc k < length spans \<longrightarrow> snd (spans ! k) - fst (spans ! Suc k) = 7))"
proof -
  have cs: "(10::int) = py_or (Some 10) (CHUNK_SIZE demo_settings)"
    and ov: "(7::int) = py_or (Some 7) (CHUNK_OVERLAP demo_settings)"
    by (simp_all add: py_or_def)
  have long: "(10::int) < int (length (clean_text (ascii ''abcdef. ghijklmnop'')))"
    by (simp add: chunk_eval)
  have b: "(0::int) \<le> 7" "(7::int) < 10" "(7::int) \<le> 10 div 2 + 2" by simp_all
  from chunk_text_windows [OF cs ov refl long b, of demo_ids 1 "ascii ''a.pdf''"]
  obtain chunks spans where
    "chunk_text demo_settings demo_ids (ascii ''abcdef. ghijklmnop'') 1 (ascii ''a.pdf'')
           (Some 10) (Some 7) = Some chunks"
    "length chunks = length spans" "fst (spans ! 0) = 0"
    "int (length (clean_text (ascii ''abcdef. ghijklmnop''))) \<le> snd (last spans)"
    "\<forall>k<length spans. int (length (c_text (chunks ! k))) \<le> 10"
    "\<forall>k. Suc k < length spans \<longrightarrow> snd (spans ! k) - fst (spans ! Suc k) = 7"
    by blast
  with long b show ?thesis by blast
qed

text \<open>
  The claim as stated fails for the chunks themselves: with chunk size 10 and overlap 1
  the space at position 9 of the text below ends the first window and begins the
  second, \<open>strip()\<close> removes it from both chunks, and no chunk contains it.
\<close>

theorem chunk_text_cover_counterexample:
  "clean_text (ascii ''abcdefghi jklmnopqrs'') = ascii ''abcdefghi jklmnopqrs''
   \<and> (10::int) < int (length (ascii ''abcdefghi jklmnopqrs''))
   \<and> chunk_text demo_settings demo_ids (ascii ''abcdefghi jklmnopqrs'') 1 (ascii ''a.pdf'')
        (Some 10) (Some 1)
      = Some [\<lparr>c_text = ascii ''abcdefghi'', c_page_number = 1, c_source = ascii ''a.pdf'',
                c_chunk_id = ascii ''uuid-0''\<rparr>,
              \<lparr>c_text = ascii ''jklmnopqr'', c_page_number = 1, c_source = ascii ''a.pdf'',
                c_chunk_id = ascii ''uuid-1''\<rparr>,
              \<lparr>c_text = ascii ''rs'', c_page_number = 1, c_source = ascii ''a.pdf'',
                c_chunk_id = ascii ''uuid-2''\<rparr>]
   \<and> ascii ''abcdefghi jklmnopqrs'' ! 9 = 32
   \<and> 32 \<notin> set (concat (map c_text (the
         (chunk_text demo_settings demo_ids (ascii ''abcdefghi jklmnopqrs'') 1 (ascii ''a.pdf'')
            (Some 10) (Some 1)))))"
  by (simp add: chunk_text_def chunk_text_spans_def chunk_loop.simps chunk_eval)

text \<open>
  Claim C5, at an input where the code does not do what the claim says. The
  configuration has chunk size 10 and overlap 8, so \<open>0 \<le> overlap < chunk_size\<close>. In the
  first window the sentence break at offset 6 moves the end to 8, the next start is
  \<open>8 - 8 = 0\<close> again, and \<open>chunk_text\<close> never returns.
\<close>

theorem chunk_text_no_progress:
  "(0::int) \<le> 8 \<and> (8::int) < 10
   \<and> next_window (clean_text (ascii ''abcdef. ghijklmnop'')) 10 0 = (8, ascii ''abcdef. '')
   \<and> chunk_text demo_settings demo_ids (ascii ''abcdef. ghijklmnop'') 1 (ascii ''a.pdf'')
        (Some 10) (Some 8) = None"
proof -
  have c: "clean_text (ascii ''abcdef. ghijklmnop'') = ascii ''abcdef. ghijklmnop''"
    by (simp add: chunk_eval)
  have n: "next_window (ascii ''abcdef. ghijklmnop'') 10 0 = (8, ascii ''abcdef. '')"
    by (simp add: chunk_eval)
  then have n': "fst (next_window (ascii ''abcdef. ghijklmnop'') 10 0) - 8 = 0" by simp
  have lt: "(0::int) < int (length (ascii ''abcdef. ghijklmnop''))"
    by (simp add: ascii_def)
  have "chunk_text demo_settings demo_ids (ascii ''abcdef. ghijklmnop'') 1 (ascii ''a.pdf'')
        (Some 10) (Some 8) = None"
    unfolding chunk_text_def chunk_text_spans_def Let_def py_or_def c
    using chunk_loop_stuck [OF n' lt] by (simp add: ascii_def)
  with c n show ?thesis by simp
qed

text \<open>
  Claim C6, at an input where the code does not do what the claim says. The text has a
  newline at offset 6, which is 60% of the chunk size 10, and goes on after the window.
  The loop step alone, on the text as given, ends the window right after the newline;
  but \<open>chunk_text\<close> cleans the text first, the newline is a space by then, and the first
  chunk is cut at 10 characters.
\<close>

theorem chunk_text_paragraph_break_lost:
  "next_window (ascii ''abcdef'' @ [10] @ ascii ''ghijklmnop'') 10 0 = (7, ascii ''abcdef'' @ [10])
   \<and> chunk_text demo_settings demo_ids (ascii ''abcdef'' @ [10] @ ascii ''ghijklmnop'') 1
        (ascii ''a.pdf'') (Some 10) (Some 2)
      = Some [\<lparr>c_text = ascii ''abcdef ghi'', c_page_number = 1, c_source = ascii ''a.pdf'',
                c_chunk_id = ascii ''uuid-0''\<rparr>,
              \<lparr>c_text = ascii ''hijklmnop'', c_page_number = 1, c_source = ascii ''a.pdf'',
                c_chunk_id = ascii ''uuid-1''\<rparr>,
              \<lparr>c_text = ascii ''p'', c_page_number = 1, c_source = ascii ''a.pdf'',
                c_chunk_id = ascii ''uuid-2''\<rparr>]"
  by (simp add: chunk_text_def chunk_text_spans_def chunk_loop.simps chunk_eval)

text \<open>
  Two more facts about termination. With an explicit overlap of \<open>0\<close> the overlap in force
  is the setting (100 by default), the start goes below \<open>0\<close> and keeps falling, and
  \<open>chunk_text\<close> never returns either. The chunker of \<open>RAGChatbot\<close>, which has no search for
  a break, returns whenever the overlap is below the chunk size.
\<close>

lemma length_py_slice_any: "a \<le> b \<Longrightarrow> length (py_slice s a b) \<le> nat (b - a)"
  unfolding py_slice_def Let_def slice_index_def by auto

lemma next_window_end_le:
  assumes "0 < cs"
  shows "fst (next_window T cs s) \<le> s + cs"
proof -
  let ?c0 = "py_slice T s (s + cs)"
  have len: "int (length ?c0) \<le> cs" using length_py_slice_any [of s "s + cs" T] assms by simp
  have "py_rfind ?c0 [10] + 1 \<le> cs"
    using py_rfind_range [of ?c0 "[10]"] len assms by auto
  moreover have "py_rfind ?c0 [46, 32] + 2 \<le> cs"
    using py_rfind_range [of ?c0 "[46, 32]"] len assms by auto
  ultimately show ?thesis unfolding next_window_def Let_def by auto
qed

lemma chunk_text_zero_overlap_no_return:
  "chunk_text demo_settings demo_ids (ascii ''abcdef. ghijklmnop'') 1 (ascii ''a.pdf'')
     (Some 10) (Some 0) = None"
proof -
  let ?T = "ascii ''abcdef. ghijklmnop''"
  have c: "clean_text ?T = ?T" by (simp add: chunk_eval)
  have len: "int (length ?T) = 18" by (simp add: ascii_def)
  have "chunk_loop ?T 1 (ascii ''a.pdf'') 10 100 demo_ids 0 [] [] = None"
  proof (rule chunk_loop_diverges [where I = "\<lambda>s. s \<le> 0"])
    show "(0::int) \<le> 0" by simp
  next
    fix s :: int
    assume "s \<le> 0"
    moreover have "fst (next_window ?T 10 s) \<le> s + 10" by (rule next_window_end_le) simp
    ultimately show "s < int (length ?T) \<and> fst (next_window ?T 10 s) - 100 \<le> 0"
      using len by linarith
  qed
  then show ?thesis
    unfolding chunk_text_def chunk_text_spans_def Let_def c
    using len by (simp add: py_or_def demo_settings_def)
qed

lemma RAGChatbot_chunk_loop_returns:
  assumes "overlap < chunk_size"
  shows "\<exists>result. RAGChatbot_chunk_loop txt chunk_size overlap start chunks = Some result"
proof (induction "nat (int (length txt) - start)" arbitrary: start chunks rule: less_induct)
  case less
  show ?case
  proof (cases "start < int (length txt)")
    case False
    then show ?thesis by (subst RAGChatbot_chunk_loop.simps) simp
  next
    case True
    let ?chunks' = "if py_strip (py_slice txt start (start + chunk_size)) \<noteq> []
           then chunks @ [py_strip (py_slice txt start (start + chunk_size))] else chunks"
    have "nat (int (length txt) - (start + (chunk_size - overlap)))
            < nat (int (length txt) - start)"
      using True assms by linarith
    from less [OF this, of ?chunks'] obtain result where
      "RAGChatbot_chunk_loop txt chunk_size overlap (start + (chunk_size - overlap)) ?chunks'
         = Some result" by blast
    with True show ?thesis by (subst RAGChatbot_chunk_loop.simps) simp
  qed
qed

lemma RAGChatbot_chunk_text_returns:
  "overlap < chunk_size \<Longrightarrow> \<exists>result. RAGChatbot_chunk_text txt chunk_size overlap = Some result"
  using RAGChatbot_chunk_loop_returns [of overlap chunk_size _ 0 "[]"]
  by (simp add: RAGChatbot_chunk_text_def)

section \<open>The retry decorator\<close>


section \<open>The embedding service\<close>








section \<open>Batches of embeddings\<close>






section \<open>Claims about single embeddings\<close>



lemmas service_eval = create_embedding_def create_embedding_attempt_def call_embed_def
  retry_def numeral_2_eq_2 fresh_world_def answering_remote_def

lemma RAGChatbot_get_embedding_blank:
  "py_strip t = [] \<Longrightarrow> RAGChatbot_get_embedding R t w = (zero768, w)"
  by (simp add: RAGChatbot_get_embedding_def)

text \<open>
  Claim C3, at inputs where the code does not do what the claim says. For the empty
  string, and for a string of a space and a tab, \<open>create_embedding\<close> calls the embedding
  service (the call is in the log) and returns what the service answers, here a vector
  that is not the zero vector. \<open>RAGChatbot._get_embedding\<close> returns the zero vector for
  both and leaves the log empty.
\<close>

theorem create_embedding_blank_calls_service:
  "create_embedding (answering_remote []) [] (fresh_world ())
     = (Inr [1, 0, 0], (fresh_world ())\<lparr>embed_log := [[]]\<rparr>)
   \<and> create_embedding (answering_remote []) [32, 9] (fresh_world ())
     = (Inr [1, 0, 0], (fresh_world ())\<lparr>embed_log := [[32, 9]]\<rparr>)
   \<and> [1, 0, 0] \<noteq> zero768
   \<and> RAGChatbot_get_embedding (answering_remote []) [] (fresh_world ())
     = (zero768, fresh_world ())
   \<and> RAGChatbot_get_embedding (answering_remote []) [32, 9] (fresh_world ())
     = (zero768, fresh_world ())"
proof -
  have "[1, 0, 0] \<noteq> zero768"
  proof
    assume "[1, 0, 0] = zero768"
    then have "length [1, 0, 0 :: real] = length zero768" by simp
    then show False by (simp add: zero768_def)
  qed
  then show ?thesis
    by (simp add: service_eval RAGChatbot_get_embedding_def py_strip_def is_space_def)
qed




section \<open>Storing embeddings\<close>













section \<open>Claims about the query pipeline\<close>

lemma RAGChatbot_generate_response_empty:
  "RAGChatbot_generate_response R query [] w
     = (ascii ''I couldn'' @ [39]
          @ ascii ''t find any relevant information to answer your question.'', w)"
  by (simp add: RAGChatbot_generate_response_def)

lemma RAGChatbot_generate_response_top3:
  "RAGChatbot_generate_response R query docs w
     = RAGChatbot_generate_response R query (take 3 docs) w"
  by (cases "docs = []") (simp_all add: RAGChatbot_generate_response_def)

lemmas query_eval = process_query_def embed_query_def create_embedding_def
  create_embedding_attempt_def call_embed_def similarity_search_def
  similarity_search_attempt_def get_index_def call_query_def generate_response_def
  generate_response_attempt_def call_generate_def retry_def fresh_world_def
  answering_remote_def demo_settings_def py_or_def get_or_def

text \<open>
  Claim C1, at an input where the code does not do what the claim says. The index
  exists and the query finds no match. \<open>process_query\<close> still calls the generation
  service, with a prompt whose context is empty (the call is in the log), and the
  response is what the service answers. \<open>RAGChatbot.generate_response\<close> returns its fixed
  answer for an empty list without a call.
\<close>

theorem process_query_empty_still_generates:
  "process_query (answering_remote []) demo_settings (ascii ''What is Project Nautilus?'')
     (ascii ''default'') (fresh_world ())
   = (Inr \<lparr>response = ascii ''MODEL ANSWER'', sources = []\<rparr>,
      \<lparr>ext = (), index_handle = True,
       embed_log = [ascii ''What is Project Nautilus?''],
       generate_log = [rag_prompt (ascii ''What is Project Nautilus?'') []],
       upsert_log = [],
       query_log = [([1, 0, 0], 5, ascii ''default'')]\<rparr>)
   \<and> RAGChatbot_generate_response (answering_remote []) (ascii ''What is Project Nautilus?'')
       [] (fresh_world ())
     = (ascii ''I couldn'' @ [39]
          @ ascii ''t find any relevant information to answer your question.'',
        fresh_world ())"
  by (simp add: query_eval format_context_def RAGChatbot_generate_response_def)

text \<open>
  Claim C7, at an input where the code does not do what the claim says. The query
  returns four matches. \<open>format_context\<close> sorts them by score and renders all four, so the
  prompt sent to the generation service holds "CONTEXT CHUNK 4" too; the four matches
  are returned as sources, in the order of retrieval. \<open>RAGChatbot.generate_response\<close>
  builds its context from the first three documents only (lemma
  \<open>RAGChatbot_generate_response_top3\<close>).
\<close>

theorem process_query_renders_every_match:
  "format_context (map to_retrieved four_matches)
   = [10, 10] @ ascii ''CONTEXT CHUNK 1 [Source: a.pdf, Page: 1]:'' @ [10] @ ascii ''alpha''
     @ [10, 10] @ ascii ''CONTEXT CHUNK 2 [Source: a.pdf, Page: 2]:'' @ [10] @ ascii ''beta''
     @ [10, 10] @ ascii ''CONTEXT CHUNK 3 [Source: a.pdf, Page: 3]:'' @ [10] @ ascii ''gamma''
     @ [10, 10] @ ascii ''CONTEXT CHUNK 4 [Source: a.pdf, Page: 4]:'' @ [10] @ ascii ''delta''
   \<and> process_query (answering_remote four_matches) demo_settings
       (ascii ''What is Project Nautilus?'') (ascii ''default'') (fresh_world ())
     = (Inr \<lparr>response = ascii ''MODEL ANSWER'', sources = map to_retrieved four_matches\<rparr>,
        \<lparr>ext = (), index_handle = True,
         embed_log = [ascii ''What is Project Nautilus?''],
         generate_log = [rag_prompt (ascii ''What is Project Nautilus?'')
                           (format_context (map to_retrieved four_matches))],
         upsert_log = [],
         query_log = [([1, 0, 0], 5, ascii ''default'')]\<rparr>)
   \<and> length (map to_retrieved four_matches) = 4"
proof -
  have ctx: "format_context (map to_retrieved four_matches)
   = [10, 10] @ ascii ''CONTEXT CHUNK 1 [Source: a.pdf, Page: 1]:'' @ [10] @ ascii ''alpha''
     @ [10, 10] @ ascii ''CONTEXT CHUNK 2 [Source: a.pdf, Page: 2]:'' @ [10] @ ascii ''beta''
     @ [10, 10] @ ascii ''CONTEXT CHUNK 3 [Source: a.pdf, Page: 3]:'' @ [10] @ ascii ''gamma''
     @ [10, 10] @ ascii ''CONTEXT CHUNK 4 [Source: a.pdf, Page: 4]:'' @ [10] @ ascii ''delta''"
    by (simp add: format_context_def four_matches_def demo_match_def to_retrieved_def
        get_or_def context_block_def str_nat.simps str_int_def ascii_def)
  have run: "process_query (answering_remote four_matches) demo_settings
       (ascii ''What is Project Nautilus?'') (ascii ''default'') (fresh_world ())
     = (Inr \<lparr>response = ascii ''MODEL ANSWER'', sources = map to_retrieved four_matches\<rparr>,
        \<lparr>ext = (), index_handle = True,
         embed_log = [ascii ''What is Project Nautilus?''],
         generate_log = [rag_prompt (ascii ''What is Project Nautilus?'')
                           (format_context (map to_retrieved four_matches))],
         upsert_log = [],
         query_log = [([1, 0, 0], 5, ascii ''default'')]\<rparr>)"
    by (simp add: query_eval)
  from ctx run show ?thesis by (simp add: four_matches_def)
qed

end
